theory Spec2Isabelle
  imports Main "HOL-Library.AList" "HOL-Library.Sublist"
begin

section \<open>The syntax tree and the values of the compiler\<close>

text \<open>
  The compiler \<^verbatim>\<open>storyscript/compiler/objects.py\<close> lowers a concrete syntax tree to
  plain Python data: dictionaries tagged by the key \<^verbatim>\<open>$OBJECT\<close>, lists, strings, integers,
  booleans and \<^verbatim>\<open>None\<close>. A child of a tree is a lark token (a type and a text) or a
  nested tree (a kind and its children). A text is a list of characters, one for each
  character of the Python string.
\<close>

datatype cst = Token string string | Tree string "cst list"

text \<open>
  Python values the compiler returns. A dictionary is an association list in insertion
  order, as Python keeps it. \<open>PTree\<close> is a syntax tree that reached the output unchanged.
\<close>

datatype pv =
    PNone
  | PBool bool
  | PInt int
  | PStr string
  | PList "pv list"
  | PDict "(string \<times> pv) list"
  | PTree cst

text \<open>The exceptions the Python code can raise on a tree of the wrong shape.\<close>

datatype error = AttributeError | TypeError | ValueError | UnboundLocalError

text \<open>What reading the attribute \<^verbatim>\<open>value\<close> of a child gives: a text, \<^verbatim>\<open>None\<close> or a tree.\<close>

datatype attr = AStr string | ANone | ATree cst

fun to_pv :: "attr \<Rightarrow> pv" where
  "to_pv (AStr s) = PStr s"
| "to_pv ANone = PNone"
| "to_pv (ATree t) = PTree t"

subsection \<open>The tree class\<close>

text \<open>
  The class \<^verbatim>\<open>Tree\<close> of \<^verbatim>\<open>storyscript/parser\<close> is not among the sources; the compiler
  uses its methods \<^verbatim>\<open>child\<close> and \<^verbatim>\<open>node\<close> and its attribute access. The three definitions
  below are what the spec and the compiler's own use of them say.
\<close>

text \<open>The i-th element of a list, \<open>None\<close> when there is none.\<close>

fun nth_opt :: "'a list \<Rightarrow> nat \<Rightarrow> 'a option" where
  "nth_opt [] i = None"
| "nth_opt (x # xs) 0 = Some x"
| "nth_opt (x # xs) (Suc i) = nth_opt xs i"

fun is_kind :: "string \<Rightarrow> cst \<Rightarrow> bool" where
  "is_kind k (Token ty v) = False"
| "is_kind k (Tree d cs) = (d = k)"

text \<open>
  Modelled from the spec: \<^verbatim>\<open>Tree.node(name)\<close> and the attribute access \<^verbatim>\<open>tree.name\<close> are
  missing. The spec gives a node named optional slots (\<^verbatim>\<open>values\<close>, \<^verbatim>\<open>operator\<close>,
  \<^verbatim>\<open>path_value\<close>, \<^verbatim>\<open>arguments\<close>, \<^verbatim>\<open>command\<close>); a slot is the first nested child of that
  kind, and \<^verbatim>\<open>None\<close> when there is none (\<^verbatim>\<open>mutation\<close> tests \<^verbatim>\<open>if tree.arguments\<close>). The
  argument is the list of children of the tree.
\<close>

definition node :: "string \<Rightarrow> cst list \<Rightarrow> cst option" where
  "node k cs = find (is_kind k) cs"

text \<open>
  Modelled from the spec: \<^verbatim>\<open>Tree.child(i)\<close> is missing. It is the i-th child of the ordered
  sequence of children, and \<^verbatim>\<open>None\<close> when there is none (\<^verbatim>\<open>expression\<close> tests
  \<^verbatim>\<open>tree.child(1) is None\<close>). Here \<^verbatim>\<open>x.child(i)\<close> is called on \<open>x\<close> a tree, a token or
  \<^verbatim>\<open>None\<close>: only a tree has the method.
\<close>

fun child :: "cst option \<Rightarrow> nat \<Rightarrow> error + cst option" where
  "child None i = Inl AttributeError"
| "child (Some (Token ty v)) i = Inl AttributeError"
| "child (Some (Tree d cs)) i = Inr (nth_opt cs i)"

text \<open>
  Modelled from the spec: the attribute access of \<^verbatim>\<open>Tree\<close> is missing. \<^verbatim>\<open>x.value\<close> is the
  text of a token; on a tree every attribute is a slot lookup, so it is \<^verbatim>\<open>None\<close> or a
  nested tree of kind \<^verbatim>\<open>value\<close>; on \<^verbatim>\<open>None\<close> it raises.
\<close>

fun value_attr :: "cst option \<Rightarrow> error + attr" where
  "value_attr None = Inl AttributeError"
| "value_attr (Some (Token ty v)) = Inr (AStr v)"
| "value_attr (Some (Tree d cs)) =
     Inr (case node ''value'' cs of None \<Rightarrow> ANone | Some t \<Rightarrow> ATree t)"

text \<open>\<^verbatim>\<open>x.child(0).value\<close>, the expression most functions start with.\<close>

definition child0_value :: "cst option \<Rightarrow> error + attr" where
  "child0_value x = (case child x 0 of Inl e \<Rightarrow> Inl e | Inr c \<Rightarrow> value_attr c)"

subsection \<open>Python's string operations\<close>

text \<open>\<^verbatim>\<open>s[1:-1]\<close>: the text without its first and its last character.\<close>

definition slice_1_m1 :: "string \<Rightarrow> string" where
  "slice_1_m1 s = butlast (tl s)"

text \<open>
  \<^verbatim>\<open>re.findall(r'{([^}]*)}', s)\<close>: from the first opening brace, the text up to the next
  closing brace is one match, and the search goes on after that brace; an opening brace
  with no closing brace after it ends the search.
\<close>

fun findall :: "string \<Rightarrow> string list"
  and capture :: "string \<Rightarrow> string \<Rightarrow> string list" where
  "findall [] = []"
| "findall (c # cs) = (if c = CHR ''{'' then capture [] cs else findall cs)"
| "capture acc [] = []"
| "capture acc (c # cs) =
     (if c = CHR ''}'' then rev acc # findall cs else capture (c # acc) cs)"

text \<open>
  \<^verbatim>\<open>s.replace(old, new)\<close>: every occurrence of \<open>old\<close>, found from left to right without
  overlap, becomes \<open>new\<close>; an empty \<open>old\<close> matches before every character and at the end.
\<close>

function replace :: "string \<Rightarrow> string \<Rightarrow> string \<Rightarrow> string" where
  "replace old new s =
     (if old = [] then new @ concat (map (\<lambda>c. c # new) s)
      else if s = [] then []
      else if prefix old s then new @ replace old new (drop (length old) s)
      else hd s # replace old new (tl s))"
  by pat_completeness auto
termination
  by (relation "measure (\<lambda>(old, new, s). length s)") auto

declare replace.simps [simp del]

text \<open>
  \<^verbatim>\<open>int(s)\<close> on ASCII text: surrounding whitespace is dropped, one sign is allowed, then
  decimal digits, with single underscores between digits. (Digits outside ASCII and the
  interpreter's limit on the number of digits are not modelled.)
\<close>

definition is_space :: "char \<Rightarrow> bool" where
  "is_space c = (of_char c \<in> {9, 10, 11, 12, 13, 28, 29, 30, 31, 32 :: nat})"

definition is_digit :: "char \<Rightarrow> bool" where
  "is_digit c = (48 \<le> (of_char c :: nat) \<and> (of_char c :: nat) \<le> 57)"

definition digit_val :: "char \<Rightarrow> int" where
  "digit_val c = int (of_char c) - 48"

definition strip :: "string \<Rightarrow> string" where
  "strip s = rev (dropWhile is_space (rev (dropWhile is_space s)))"

fun digits_ok :: "string \<Rightarrow> bool"
  and rest_ok :: "string \<Rightarrow> bool" where
  "digits_ok [] = False"
| "digits_ok (c # cs) = (is_digit c \<and> rest_ok cs)"
| "rest_ok [] = True"
| "rest_ok (c # cs) = (if c = CHR ''_'' then digits_ok cs else is_digit c \<and> rest_ok cs)"

definition decimal :: "string \<Rightarrow> int" where
  "decimal ds = foldl (\<lambda>a c. 10 * a + digit_val c) 0 (filter (\<lambda>c. c \<noteq> CHR ''_'') ds)"

definition py_int :: "string \<Rightarrow> error + int" where
  "py_int s =
     (let t = strip s;
          neg = (t \<noteq> [] \<and> hd t = CHR ''-'');
          ds = (if t \<noteq> [] \<and> (hd t = CHR ''-'' \<or> hd t = CHR ''+'') then tl t else t)
      in if digits_ok ds then Inr (if neg then - decimal ds else decimal ds)
         else Inl ValueError)"

section \<open>The compiler\<close>

subsection \<open>Paths\<close>

text \<open>
  \<^verbatim>\<open>Objects.names\<close> and \<^verbatim>\<open>Objects.path\<close>. \<open>fragments\<close> is the loop of \<^verbatim>\<open>names\<close> over
  \<^verbatim>\<open>tree.children[1:]\<close>; \<open>segment\<close> is its body for one fragment.
\<close>

fun path :: "cst \<Rightarrow> error + pv"
  and names :: "cst \<Rightarrow> error + pv list"
  and fragments :: "cst list \<Rightarrow> error + pv list"
  and segment :: "cst \<Rightarrow> error + pv" where
  "path t =
     (case names t of
        Inl e \<Rightarrow> Inl e
      | Inr ns \<Rightarrow> Inr (PDict [(''$OBJECT'', PStr ''path''), (''paths'', PList ns)]))"
| "names (Token ty v) = Inl AttributeError"
| "names (Tree d []) = Inl AttributeError"
| "names (Tree d (c # cs)) =
     (case value_attr (Some c) of
        Inl e \<Rightarrow> Inl e
      | Inr n \<Rightarrow>
          (case fragments cs of
             Inl e \<Rightarrow> Inl e
           | Inr ns \<Rightarrow> Inr (to_pv n # ns)))"
| "fragments [] = Inr []"
| "fragments (f # fs) =
     (case segment f of
        Inl e \<Rightarrow> Inl e
      | Inr v \<Rightarrow>
          (case fragments fs of
             Inl e \<Rightarrow> Inl e
           | Inr vs \<Rightarrow> Inr (v # vs)))"
| "segment (Token ty v) = Inl AttributeError"
| "segment (Tree d []) = Inl AttributeError"
| "segment (Tree d (Token ty v # cs)) = Inr (PStr v)"
| "segment (Tree d (Tree cd ccs # cs)) =
     (if cd = ''string'' then
        (case child0_value (Some (Tree cd ccs)) of
           Inl e \<Rightarrow> Inl e
         | Inr (AStr s) \<Rightarrow> Inr (PStr (slice_1_m1 s))
         | Inr _ \<Rightarrow> Inl TypeError)
      else if cd = ''path'' then path (Tree cd ccs)
      else
        (case value_attr (Some (Tree cd ccs)) of
           Inl e \<Rightarrow> Inl e
         | Inr a \<Rightarrow> Inr (to_pv a)))"

subsection \<open>Scalars, strings and type names\<close>

text \<open>\<^verbatim>\<open>Objects.number\<close>: \<^verbatim>\<open>int\<close> of a text; of \<^verbatim>\<open>None\<close> or of a tree it raises TypeError.\<close>

definition number :: "cst \<Rightarrow> error + pv" where
  "number t =
     (case child0_value (Some t) of
        Inl e \<Rightarrow> Inl e
      | Inr (AStr s) \<Rightarrow> (case py_int s of Inl e \<Rightarrow> Inl e | Inr n \<Rightarrow> Inr (PInt n))
      | Inr _ \<Rightarrow> Inl TypeError)"

text \<open>\<^verbatim>\<open>Objects.replace_placeholders\<close>: one pass of \<^verbatim>\<open>str.replace\<close> for each match, in order.\<close>

fun replace_placeholders :: "string \<Rightarrow> string list \<Rightarrow> string" where
  "replace_placeholders s [] = s"
| "replace_placeholders s (m # ms) =
     replace_placeholders (replace (CHR ''{'' # m @ ''}'') ''{}'' s) ms"

text \<open>\<^verbatim>\<open>Objects.placeholders_values\<close>: the path of a one-token tree for each match.\<close>

fun placeholders_values :: "string list \<Rightarrow> error + pv list" where
  "placeholders_values [] = Inr []"
| "placeholders_values (m # ms) =
     (case path (Tree ''path'' [Token ''WORD'' m]) of
        Inl e \<Rightarrow> Inl e
      | Inr v \<Rightarrow>
          (case placeholders_values ms of
             Inl e \<Rightarrow> Inl e
           | Inr vs \<Rightarrow> Inr (v # vs)))"

text \<open>
  \<^verbatim>\<open>Objects.string\<close>. The dictionary \<^verbatim>\<open>item\<close> is built with two keys; with matches, the
  key \<^verbatim>\<open>values\<close> is added and the key \<^verbatim>\<open>string\<close> is overwritten in place.
\<close>

definition string :: "cst \<Rightarrow> error + pv" where
  "string t =
     (case child0_value (Some t) of
        Inl e \<Rightarrow> Inl e
      | Inr (AStr v) \<Rightarrow>
          (let text = slice_1_m1 v;
               item = [(''$OBJECT'', PStr ''string''), (''string'', PStr text)];
               matches = findall text
           in if matches = [] then Inr (PDict item)
              else
                (case placeholders_values matches of
                   Inl e \<Rightarrow> Inl e
                 | Inr vs \<Rightarrow>
                     Inr (PDict (AList.update ''string''
                                   (PStr (replace_placeholders text matches))
                                   (AList.update ''values'' (PList vs) item)))))
      | Inr _ \<Rightarrow> Inl TypeError)"

text \<open>\<^verbatim>\<open>Objects.boolean\<close>: \<^verbatim>\<open>None\<close> and a tree are not equal to the text \<^verbatim>\<open>true\<close>.\<close>

definition boolean :: "cst \<Rightarrow> error + pv" where
  "boolean t =
     (case child0_value (Some t) of
        Inl e \<Rightarrow> Inl e
      | Inr (AStr v) \<Rightarrow> Inr (PBool (v = ''true''))
      | Inr _ \<Rightarrow> Inr (PBool False))"

text \<open>\<^verbatim>\<open>Objects.types\<close>.\<close>

definition types :: "cst \<Rightarrow> error + pv" where
  "types t =
     (case child0_value (Some t) of
        Inl e \<Rightarrow> Inl e
      | Inr a \<Rightarrow> Inr (PDict [(''$OBJECT'', PStr ''type''), (''type'', to_pv a)]))"

subsection \<open>Values, lists and dictionaries\<close>

text \<open>
  \<^verbatim>\<open>Objects.values\<close>, \<^verbatim>\<open>Objects.list\<close> and \<^verbatim>\<open>Objects.objects\<close>. \<open>list_items\<close> and
  \<open>objects_items\<close> are the two loops. The variable \<^verbatim>\<open>key\<close> of \<^verbatim>\<open>objects\<close> lives across
  iterations: it is \<open>None\<close> until an entry assigns it, and an entry whose key node is
  neither a string nor a path leaves it as it was (using it unassigned raises
  UnboundLocalError, after the entry's value was compiled). In \<^verbatim>\<open>values\<close>, a nested
  tree of an unknown kind reaches the test \<^verbatim>\<open>subtree.type == 'NAME'\<close>, where the
  attribute is a slot lookup and never equal to a text, so nothing is returned.
\<close>

fun "values" :: "cst \<Rightarrow> error + pv"
  and list :: "cst \<Rightarrow> error + pv"
  and list_items :: "cst list \<Rightarrow> error + pv list"
  and objects :: "cst \<Rightarrow> error + pv"
  and objects_items :: "pv option \<Rightarrow> cst list \<Rightarrow> error + pv list" where
  "values (Token ty v) = Inl AttributeError"
| "values (Tree d []) = Inl AttributeError"
| "values (Tree d (Token ty v # cs)) =
     (if ty = ''NAME'' then path (Tree d (Token ty v # cs)) else Inr PNone)"
| "values (Tree d (Tree sd scs # cs)) =
     (if sd = ''string'' then string (Tree sd scs)
      else if sd = ''boolean'' then boolean (Tree sd scs)
      else if sd = ''list'' then list (Tree sd scs)
      else if sd = ''number'' then number (Tree sd scs)
      else if sd = ''objects'' then objects (Tree sd scs)
      else if sd = ''types'' then types (Tree sd scs)
      else Inr PNone)"
| "list (Token ty v) = Inl AttributeError"
| "list (Tree d cs) =
     (case list_items cs of
        Inl e \<Rightarrow> Inl e
      | Inr items \<Rightarrow> Inr (PDict [(''$OBJECT'', PStr ''list''), (''items'', PList items)]))"
| "list_items [] = Inr []"
| "list_items (c # cs) =
     (case values c of
        Inl e \<Rightarrow> Inl e
      | Inr v \<Rightarrow>
          (case list_items cs of
             Inl e \<Rightarrow> Inl e
           | Inr vs \<Rightarrow> Inr (v # vs)))"
| "objects (Token ty v) = Inl AttributeError"
| "objects (Tree d cs) =
     (case objects_items None cs of
        Inl e \<Rightarrow> Inl e
      | Inr items \<Rightarrow> Inr (PDict [(''$OBJECT'', PStr ''dict''), (''items'', PList items)]))"
| "objects_items key [] = Inr []"
| "objects_items key (Token ty v # items) = Inl AttributeError"
| "objects_items key (Tree d [] # items) = Inl AttributeError"
| "objects_items key (Tree d (Token ty v # rest) # items) = Inl AttributeError"
| "objects_items key (Tree d (Tree kd kcs # rest) # items) =
     (case (if kd = ''string'' then map_sum id Some (string (Tree kd kcs))
            else if kd = ''path'' then map_sum id Some (path (Tree kd kcs))
            else Inr key) of
        Inl e \<Rightarrow> Inl e
      | Inr key' \<Rightarrow>
          (case (case rest of [] \<Rightarrow> Inl AttributeError | v # _ \<Rightarrow> values v) of
             Inl e \<Rightarrow> Inl e
           | Inr v \<Rightarrow>
               (case key' of
                  None \<Rightarrow> Inl UnboundLocalError
                | Some k \<Rightarrow>
                    (case objects_items key' items of
                       Inl e \<Rightarrow> Inl e
                     | Inr kvs \<Rightarrow> Inr (PList [k, v] # kvs)))))"

subsection \<open>Arguments and mutations\<close>

text \<open>\<^verbatim>\<open>cls.values(x)\<close> for \<open>x\<close> that may be \<^verbatim>\<open>None\<close>.\<close>

fun values_of :: "cst option \<Rightarrow> error + pv" where
  "values_of None = Inl AttributeError"
| "values_of (Some t) = values t"

text \<open>\<^verbatim>\<open>Objects.argument\<close>.\<close>

fun argument :: "cst \<Rightarrow> error + pv" where
  "argument (Token ty v) = Inl AttributeError"
| "argument (Tree d cs) =
     (case value_attr (nth_opt cs 0) of
        Inl e \<Rightarrow> Inl e
      | Inr name \<Rightarrow>
          (case values_of (nth_opt cs 1) of
             Inl e \<Rightarrow> Inl e
           | Inr v \<Rightarrow>
               Inr (PDict [(''$OBJECT'', PStr ''argument''), (''name'', to_pv name),
                           (''argument'', v)])))"

text \<open>A loop that appends \<open>f x\<close> for each \<open>x\<close>, stopping at the first exception.\<close>

fun collect :: "('a \<Rightarrow> error + 'b) \<Rightarrow> 'a list \<Rightarrow> error + 'b list" where
  "collect f [] = Inr []"
| "collect f (x # xs) =
     (case f x of
        Inl e \<Rightarrow> Inl e
      | Inr v \<Rightarrow> (case collect f xs of Inl e \<Rightarrow> Inl e | Inr vs \<Rightarrow> Inr (v # vs)))"

text \<open>
  \<^verbatim>\<open>Objects.arguments\<close>. \<^verbatim>\<open>find_data\<close> is a method of lark's tree class, a library that is
  not part of the repository: the model takes it as the parameter \<open>fd\<close> (the subtrees of
  a tree that have a given kind, in lark's order).
\<close>

fun arguments :: "(string \<Rightarrow> cst \<Rightarrow> cst list) \<Rightarrow> cst \<Rightarrow> error + pv list" where
  "arguments fd (Token ty v) = Inl AttributeError"
| "arguments fd (Tree d cs) = collect argument (fd ''arguments'' (Tree d cs))"

text \<open>
  \<^verbatim>\<open>Objects.mutation\<close>. A tree is true in a condition and \<^verbatim>\<open>None\<close> is false, so
  \<^verbatim>\<open>if tree.arguments\<close> asks whether the slot is there.
\<close>

fun mutation :: "(string \<Rightarrow> cst \<Rightarrow> cst list) \<Rightarrow> cst \<Rightarrow> error + pv" where
  "mutation fd (Token ty v) = Inl AttributeError"
| "mutation fd (Tree d cs) =
     (case value_attr (nth_opt cs 0) of
        Inl e \<Rightarrow> Inl e
      | Inr name \<Rightarrow>
          (case (case node ''arguments'' cs of
                   None \<Rightarrow> Inr []
                 | Some a \<Rightarrow> arguments fd a) of
             Inl e \<Rightarrow> Inl e
           | Inr args \<Rightarrow>
               (case (case node ''command'' cs of
                        None \<Rightarrow> Inr name
                      | Some c \<Rightarrow> child0_value (Some c)) of
                  Inl e \<Rightarrow> Inl e
                | Inr name' \<Rightarrow>
                    Inr (PDict [(''$OBJECT'', PStr ''mutation''), (''mutation'', to_pv name'),
                                (''arguments'', PList args)]))))"

text \<open>
  \<^verbatim>\<open>Objects.typed_argument\<close>. When the subtree has no second child, the synthetic tree
  holds \<^verbatim>\<open>None\<close>, and \<^verbatim>\<open>values\<close> raises on its \<^verbatim>\<open>subtree.type\<close>.
\<close>

fun typed_argument :: "cst \<Rightarrow> error + pv" where
  "typed_argument (Token ty v) = Inl AttributeError"
| "typed_argument (Tree d cs) =
     (let subtree = node ''typed_argument'' cs in
      case child0_value subtree of
        Inl e \<Rightarrow> Inl e
      | Inr name \<Rightarrow>
          (case child subtree 1 of
             Inl e \<Rightarrow> Inl e
           | Inr None \<Rightarrow> Inl AttributeError
           | Inr (Some c) \<Rightarrow>
               (case values (Tree ''anon'' [c]) of
                  Inl e \<Rightarrow> Inl e
                | Inr v \<Rightarrow>
                    Inr (PDict [(''$OBJECT'', PStr ''argument''), (''name'', to_pv name),
                                (''argument'', v)]))))"

text \<open>\<^verbatim>\<open>Objects.function_arguments\<close>.\<close>

fun function_arguments :: "(string \<Rightarrow> cst \<Rightarrow> cst list) \<Rightarrow> cst \<Rightarrow> error + pv list" where
  "function_arguments fd (Token ty v) = Inl AttributeError"
| "function_arguments fd (Tree d cs) =
     collect typed_argument (fd ''function_argument'' (Tree d cs))"

subsection \<open>Expressions\<close>

text \<open>
  \<^verbatim>\<open>'{}'.format(x)\<close> for what the compiler passes as an operator: a text (a token is a
  text), \<^verbatim>\<open>None\<close>, or a tree, whose printed form is lark's and is the parameter \<open>rp\<close>.
\<close>

fun py_str :: "(cst \<Rightarrow> string) \<Rightarrow> attr \<Rightarrow> string" where
  "py_str rp (AStr s) = s"
| "py_str rp ANone = ''None''"
| "py_str rp (ATree t) = rp t"

fun as_attr :: "cst option \<Rightarrow> attr" where
  "as_attr None = ANone"
| "as_attr (Some (Token ty v)) = AStr v"
| "as_attr (Some (Tree d cs)) = ATree (Tree d cs)"

text \<open>\<^verbatim>\<open>Objects.fill_expression\<close>: \<^verbatim>\<open>'{} {} {}'.format(l, op, r)\<close> on printed arguments.\<close>

definition fill_expression :: "string \<Rightarrow> string \<Rightarrow> string \<Rightarrow> string" where
  "fill_expression left_handside operator right_handside =
     left_handside @ '' '' @ operator @ '' '' @ right_handside"

text \<open>\<^verbatim>\<open>Objects.expression\<close>: the first branch returns a dictionary, the second a list.\<close>

fun expression :: "(cst \<Rightarrow> string) \<Rightarrow> cst \<Rightarrow> error + pv" where
  "expression rp (Token ty v) = Inl AttributeError"
| "expression rp (Tree d cs) =
     (case node ''values'' cs of
        Some l \<Rightarrow>
          (case child0_value (node ''operator'' cs) of
             Inl e \<Rightarrow> Inl e
           | Inr operator \<Rightarrow>
               (let expr = fill_expression ''{}'' (py_str rp operator) ''{}'' in
                case values l of
                  Inl e \<Rightarrow> Inl e
                | Inr a \<Rightarrow>
                    (case values_of (nth_opt cs 2) of
                       Inl e \<Rightarrow> Inl e
                     | Inr b \<Rightarrow>
                         Inr (PDict [(''$OBJECT'', PStr ''expression''),
                                     (''expression'', PStr expr),
                                     (''values'', PList [a, b])]))))
      | None \<Rightarrow>
          (case child (node ''path_value'' cs) 0 of
             Inl e \<Rightarrow> Inl e
           | Inr l \<Rightarrow>
               (case values_of l of
                  Inl e \<Rightarrow> Inl e
                | Inr left_handside \<Rightarrow>
                    (case nth_opt cs 1 of
                       None \<Rightarrow> Inr (PList [left_handside])
                     | Some comparison \<Rightarrow>
                         (case child (nth_opt cs 2) 0 of
                            Inl e \<Rightarrow> Inl e
                          | Inr r \<Rightarrow>
                              (case values_of r of
                                 Inl e \<Rightarrow> Inl e
                               | Inr right_handside \<Rightarrow>
                                   (case child (Some comparison) 0 of
                                      Inl e \<Rightarrow> Inl e
                                    | Inr op \<Rightarrow>
                                        Inr (PList [PDict
                                          [(''$OBJECT'', PStr ''expression''),
                                           (''expression'', PStr (fill_expression ''{}''
                                              (py_str rp (as_attr op)) ''{}'')),
                                           (''values'',
                                            PList [left_handside, right_handside])]]))))))))"

subsection \<open>Auxiliary definitions for the statements\<close>

text \<open>A string literal as the lexer delivers it: the text between two double quotes.\<close>

definition quoted :: "string \<Rightarrow> string" where
  "quoted s = CHR 0x22 # s @ [CHR 0x22]"

text \<open>The discriminator of a value: what a dictionary holds under \<^verbatim>\<open>$OBJECT\<close>.\<close>

definition discriminator :: "pv \<Rightarrow> pv option" where
  "discriminator v = (case v of PDict al \<Rightarrow> map_of al ''$OBJECT'' | _ \<Rightarrow> None)"

text \<open>A path of one segment, and a placeholder as it stands in the text.\<close>

definition path_of_name :: "string \<Rightarrow> pv" where
  "path_of_name m = PDict [(''$OBJECT'', PStr ''path''), (''paths'', PList [PStr m])]"

definition braced :: "string \<Rightarrow> string" where
  "braced m = CHR ''{'' # m @ ''}''"

text \<open>
  The template the spec describes: the text with every placeholder occurrence (an opening
  brace up to the next closing brace) replaced by the marker \<^verbatim>\<open>{}\<close>. An opening brace that
  is never closed stays as it is.
\<close>

fun blank :: "string \<Rightarrow> string"
  and blank_in :: "string \<Rightarrow> string \<Rightarrow> string" where
  "blank [] = []"
| "blank (c # cs) = (if c = CHR ''{'' then blank_in [] cs else c # blank cs)"
| "blank_in acc [] = CHR ''{'' # rev acc"
| "blank_in acc (c # cs) =
     (if c = CHR ''}'' then ''{}'' @ blank cs else blank_in (c # acc) cs)"

text \<open>The same, for the placeholders whose inner text is in \<open>ms\<close> only.\<close>

fun blank_only :: "string list \<Rightarrow> string \<Rightarrow> string"
  and blank_only_in :: "string list \<Rightarrow> string \<Rightarrow> string \<Rightarrow> string" where
  "blank_only ms [] = []"
| "blank_only ms (c # cs) =
     (if c = CHR ''{'' then blank_only_in ms [] cs else c # blank_only ms cs)"
| "blank_only_in ms acc [] = CHR ''{'' # rev acc"
| "blank_only_in ms acc (c # cs) =
     (if c = CHR ''}''
      then (if rev acc \<in> set ms then ''{}'' else CHR ''{'' # rev acc @ ''}'') @ blank_only ms cs
      else blank_only_in ms (c # acc) cs)"

text \<open>
  Filling a template positionally: the markers \<^verbatim>\<open>{}\<close>, from left to right, are replaced by
  the given texts in their order.
\<close>

fun fill :: "string \<Rightarrow> string list \<Rightarrow> string" where
  "fill (c # d # ds) (x # xs) =
     (if c = CHR ''{'' \<and> d = CHR ''}'' then x @ fill ds xs else c # fill (d # ds) (x # xs))"
| "fill (c # cs) xs = c # fill cs xs"
| "fill [] xs = []"

text \<open>No placeholder of the text has an opening brace in its inner text.\<close>

definition no_inner_brace :: "string \<Rightarrow> bool" where
  "no_inner_brace s = list_all (\<lambda>m. CHR ''{'' \<notin> set m) (findall s)"

text \<open>
  One instance of the parameter \<open>fd\<close>, to evaluate examples: the tree itself and its nested
  trees that have the kind, in source order.
\<close>

fun subtrees :: "cst \<Rightarrow> cst list" where
  "subtrees (Token ty v) = []"
| "subtrees (Tree d cs) = Tree d cs # concat (map subtrees cs)"

definition find_data :: "string \<Rightarrow> cst \<Rightarrow> cst list" where
  "find_data k t = filter (is_kind k) (subtrees t)"

text \<open>
  A dictionary entry as the spec words it: the key is compiled as a string when the key
  node is a string node and resolved as a path otherwise, the value is compiled by
  \<open>values\<close>, and the entry is the pair of both.
\<close>

fun dict_entry :: "cst \<Rightarrow> error + pv" where
  "dict_entry (Tree ed (k # v # rest)) =
     (case (if is_kind ''string'' k then string k else path k) of
        Inl e \<Rightarrow> Inl e
      | Inr key \<Rightarrow>
          (case values v of
             Inl e \<Rightarrow> Inl e
           | Inr val \<Rightarrow> Inr (PList [key, val])))"
| "dict_entry _ = Inl AttributeError"

text \<open>The key node of an entry is a string node or a path node.\<close>

fun key_is_string_or_path :: "cst \<Rightarrow> bool" where
  "key_is_string_or_path (Tree ed (Tree kd kcs # rest)) = (kd = ''string'' \<or> kd = ''path'')"
| "key_is_string_or_path _ = False"

section \<open>Properties\<close>

subsection \<open>Helper lemmas: evaluation\<close>

lemma slice_1_m1_quoted [simp]: "slice_1_m1 (q # s @ [q']) = s"
  by (simp add: slice_1_m1_def butlast_append)

lemma slice_1_m1_quoted' [simp]: "slice_1_m1 (quoted s) = s"
  by (simp add: quoted_def)

lemma nth_opt_Cons_numeral [simp]:
  "nth_opt (x # xs) (numeral n) = nth_opt xs (pred_numeral n)"
  by (simp add: numeral_eq_Suc)

lemma node_Token [simp]: "node k (Token ty v # cs) = node k cs"
  by (simp add: node_def)

lemmas eval_number = number_def child0_value_def py_int_def strip_def is_space_def
  is_digit_def decimal_def digit_val_def

subsection \<open>Helper lemmas: the loops\<close>

lemma fragments_all2:
  "list_all2 (\<lambda>f v. segment f = Inr v) fs vs \<Longrightarrow> fragments fs = Inr vs"
  by (induction fs vs rule: list_all2_induct) simp_all

lemma list_items_all2:
  "list_all2 (\<lambda>c v. values c = Inr v) cs vs \<Longrightarrow> list_items cs = Inr vs"
  by (induction cs vs rule: list_all2_induct) simp_all

lemma objects_items_all2:
  "list_all2 (\<lambda>e kv. dict_entry e = Inr kv) es kvs \<Longrightarrow>
   \<forall>e \<in> set es. key_is_string_or_path e \<Longrightarrow>
   objects_items key es = Inr kvs"
proof (induction es kvs arbitrary: key rule: list_all2_induct)
  case Nil
  then show ?case by simp
next
  case (Cons e es kv kvs)
  from Cons.prems have ok: "key_is_string_or_path e" by simp
  then obtain ed kd kcs rest where e: "e = Tree ed (Tree kd kcs # rest)"
    by (cases e rule: key_is_string_or_path.cases) auto
  from Cons.hyps(1) e obtain v rest' where rest: "rest = v # rest'"
    by (cases rest) auto
  from Cons.prems have tl: "\<forall>e \<in> set es. key_is_string_or_path e" by simp
  show ?case
    using Cons.hyps(1) ok Cons.IH [OF tl] unfolding e rest
    by (auto split: sum.splits if_splits)
qed

lemma placeholders_values_map:
  "placeholders_values ms =
     Inr (map (\<lambda>m. PDict [(''$OBJECT'', PStr ''path''), (''paths'', PList [PStr m])]) ms)"
  by (induction ms) simp_all

lemma names_kind: "names (Tree d cs) = names (Tree d' cs)"
  by (cases cs) simp_all

lemma values_kind: "values (Tree d cs) = values (Tree d' cs)"
proof (cases cs)
  case Nil
  then show ?thesis by simp
next
  case (Cons c cs')
  then show ?thesis
    using names_kind [of d "c # cs'" d'] by (cases c) simp_all
qed

subsection \<open>Helper lemmas: discriminators\<close>

lemma path_disc: "path t = Inr v \<Longrightarrow> discriminator v = Some (PStr ''path'')"
  by (auto simp: discriminator_def split: sum.splits)

lemma string_disc: "string t = Inr v \<Longrightarrow> discriminator v = Some (PStr ''string'')"
  by (auto simp: string_def discriminator_def Let_def split: sum.splits attr.splits if_splits)

lemma list_disc: "list t = Inr v \<Longrightarrow> discriminator v = Some (PStr ''list'')"
  by (cases t) (auto simp: discriminator_def split: sum.splits)

lemma objects_disc: "objects t = Inr v \<Longrightarrow> discriminator v = Some (PStr ''dict'')"
  by (cases t) (auto simp: discriminator_def split: sum.splits)

lemma types_disc: "types t = Inr v \<Longrightarrow> discriminator v = Some (PStr ''type'')"
  by (auto simp: types_def discriminator_def split: sum.splits)

lemma argument_disc: "argument t = Inr v \<Longrightarrow> discriminator v = Some (PStr ''argument'')"
  by (cases t) (auto simp: discriminator_def split: sum.splits)

lemma typed_argument_disc:
  "typed_argument t = Inr v \<Longrightarrow> discriminator v = Some (PStr ''argument'')"
  by (cases t) (auto simp: discriminator_def Let_def split: sum.splits option.splits)

lemma mutation_disc: "mutation fd t = Inr v \<Longrightarrow> discriminator v = Some (PStr ''mutation'')"
  by (cases t) (auto simp: discriminator_def split: sum.splits option.splits)

lemma number_bare: "number t = Inr v \<Longrightarrow> \<exists>n. v = PInt n"
  by (auto simp: number_def split: sum.splits attr.splits)

lemma boolean_bare: "boolean t = Inr v \<Longrightarrow> \<exists>b. v = PBool b"
  by (auto simp: boolean_def split: sum.splits attr.splits)

lemma expression_disc:
  "expression rp t = Inr v \<Longrightarrow>
     discriminator v = Some (PStr ''expression'')
     \<or> (\<exists>x. v = PList [x] \<and>
           (discriminator x = Some (PStr ''expression'') \<or> (\<exists>l. values_of l = Inr x)))"
  by (cases t) (auto simp: discriminator_def Let_def split: sum.splits option.splits)

lemma values_disc:
  "values t = Inr v \<Longrightarrow>
     v = PNone \<or> (\<exists>b. v = PBool b) \<or> (\<exists>n. v = PInt n)
     \<or> discriminator v \<in> {Some (PStr ''path''), Some (PStr ''string''), Some (PStr ''list''),
                             Some (PStr ''dict''), Some (PStr ''type'')}"
proof (cases t)
  case (Token ty x)
  assume "values t = Inr v"
  with Token show ?thesis by simp
next
  case (Tree d cs)
  assume r: "values t = Inr v"
  show ?thesis
  proof (cases cs)
    case Nil
    with Tree r show ?thesis by simp
  next
    case (Cons c cs')
    show ?thesis
    proof (cases c)
      case (Token ty x)
      with Tree Cons r have "v = PNone \<or> path t = Inr v"
        by (auto split: if_splits)
      then show ?thesis using path_disc by blast
    next
      case inner: (Tree sd scs)
      with Tree Cons r have
        "string c = Inr v \<or> boolean c = Inr v \<or> list c = Inr v \<or> number c = Inr v
         \<or> objects c = Inr v \<or> types c = Inr v \<or> v = PNone"
        by (auto split: if_splits)
      then show ?thesis
        using string_disc boolean_bare list_disc number_bare objects_disc types_disc
        by blast
    qed
  qed
qed

subsection \<open>Helper lemmas: texts with placeholders\<close>

text \<open>
  Every text is plain (no opening brace), or plain text followed by an opening brace that
  is never closed, or plain text followed by a placeholder and a rest.
\<close>

lemma brace_induct [case_names plain unclosed hole]:
  assumes plain: "\<And>t. CHR ''{'' \<notin> set t \<Longrightarrow> P t"
    and unclosed: "\<And>t u. CHR ''{'' \<notin> set t \<Longrightarrow> CHR ''}'' \<notin> set u \<Longrightarrow> P (t @ CHR ''{'' # u)"
    and hole: "\<And>t m r. CHR ''{'' \<notin> set t \<Longrightarrow> CHR ''}'' \<notin> set m \<Longrightarrow> P r
                 \<Longrightarrow> P (t @ CHR ''{'' # m @ CHR ''}'' # r)"
  shows "P s"
proof (induction s rule: length_induct)
  case (1 s)
  define t where "t = takeWhile (\<lambda>c. c \<noteq> CHR ''{'') s"
  define rest where "rest = dropWhile (\<lambda>c. c \<noteq> CHR ''{'') s"
  have s: "s = t @ rest" by (simp add: t_def rest_def)
  have t: "CHR ''{'' \<notin> set t"
    by (auto simp: t_def dest: set_takeWhileD)
  show ?case
  proof (cases rest)
    case Nil
    with s t plain show ?thesis by simp
  next
    case (Cons c u)
    have "\<not> (hd rest \<noteq> CHR ''{'')"
      unfolding rest_def using Cons hd_dropWhile [of "\<lambda>c. c \<noteq> CHR ''{''" s]
      by (simp add: rest_def)
    with Cons have c: "c = CHR ''{''" by simp
    define m where "m = takeWhile (\<lambda>c. c \<noteq> CHR ''}'') u"
    define rest2 where "rest2 = dropWhile (\<lambda>c. c \<noteq> CHR ''}'') u"
    have u: "u = m @ rest2" by (simp add: m_def rest2_def)
    have m: "CHR ''}'' \<notin> set m"
      by (auto simp: m_def dest: set_takeWhileD)
    show ?thesis
    proof (cases rest2)
      case Nil
      with u m have "CHR ''}'' \<notin> set u" by simp
      with unclosed [OF t this] s Cons c show ?thesis by simp
    next
      case inner: (Cons c' r)
      have "\<not> (hd rest2 \<noteq> CHR ''}'')"
        unfolding rest2_def using inner hd_dropWhile [of "\<lambda>c. c \<noteq> CHR ''}''" u]
        by (simp add: rest2_def)
      with inner have c': "c' = CHR ''}''" by simp
      have shape: "s = t @ CHR ''{'' # m @ CHR ''}'' # r"
        using s Cons c u inner c' by simp
      then have "length r < length s" by simp
      with 1 have "P r" by blast
      from hole [OF t m this] shape show ?thesis by simp
    qed
  qed
qed


text \<open>\<open>findall\<close> on the three shapes of a text.\<close>

lemma findall_plain: "CHR ''{'' \<notin> set t \<Longrightarrow> findall (t @ s) = findall s"
  by (induction t) auto

lemma capture_unclosed: "CHR ''}'' \<notin> set u \<Longrightarrow> capture acc u = []"
  by (induction u arbitrary: acc) auto

lemma capture_hole:
  "CHR ''}'' \<notin> set m \<Longrightarrow> capture acc (m @ CHR ''}'' # r) = (rev acc @ m) # findall r"
  by (induction m arbitrary: acc) auto

lemma findall_shapes:
  "CHR ''{'' \<notin> set t \<Longrightarrow> findall t = []"
  "CHR ''{'' \<notin> set t \<Longrightarrow> CHR ''}'' \<notin> set u \<Longrightarrow> findall (t @ CHR ''{'' # u) = []"
  "CHR ''{'' \<notin> set t \<Longrightarrow> CHR ''}'' \<notin> set m \<Longrightarrow>
     findall (t @ CHR ''{'' # m @ CHR ''}'' # r) = m # findall r"
  using findall_plain [of t "[]"]
  by (simp_all add: findall_plain capture_unclosed capture_hole)

text \<open>\<open>blank_only\<close> on the three shapes.\<close>

lemma blank_only_plain: "CHR ''{'' \<notin> set t \<Longrightarrow> blank_only ms (t @ s) = t @ blank_only ms s"
  by (induction t) auto

lemma blank_only_in_unclosed:
  "CHR ''}'' \<notin> set u \<Longrightarrow> blank_only_in ms acc u = CHR ''{'' # rev acc @ u"
  by (induction u arbitrary: acc) auto

lemma blank_only_in_hole:
  "CHR ''}'' \<notin> set m \<Longrightarrow>
   blank_only_in ms acc (m @ CHR ''}'' # r) =
     (if rev acc @ m \<in> set ms then ''{}'' else CHR ''{'' # rev acc @ m @ ''}'') @ blank_only ms r"
  by (induction m arbitrary: acc) auto

lemma blank_only_shapes:
  "CHR ''{'' \<notin> set t \<Longrightarrow> blank_only ms t = t"
  "CHR ''{'' \<notin> set t \<Longrightarrow> CHR ''}'' \<notin> set u \<Longrightarrow>
     blank_only ms (t @ CHR ''{'' # u) = t @ CHR ''{'' # u"
  "CHR ''{'' \<notin> set t \<Longrightarrow> CHR ''}'' \<notin> set m \<Longrightarrow>
     blank_only ms (t @ CHR ''{'' # m @ CHR ''}'' # r) =
       t @ (if m \<in> set ms then ''{}'' else CHR ''{'' # m @ ''}'') @ blank_only ms r"
  using blank_only_plain [of t ms "[]"]
  by (simp_all add: blank_only_plain blank_only_in_unclosed blank_only_in_hole)

lemma blank_only_marker:
  "CHR ''{'' \<notin> set t \<Longrightarrow>
     blank_only ms (t @ CHR ''{'' # CHR ''}'' # r) = t @ ''{}'' @ blank_only ms r"
  using blank_only_shapes(3) [of t "[]" ms r] by simp

text \<open>\<open>blank\<close> on the three shapes.\<close>

lemma blank_plain: "CHR ''{'' \<notin> set t \<Longrightarrow> blank (t @ s) = t @ blank s"
  by (induction t) auto

lemma blank_in_unclosed:
  "CHR ''}'' \<notin> set u \<Longrightarrow> blank_in acc u = CHR ''{'' # rev acc @ u"
  by (induction u arbitrary: acc) auto

lemma blank_in_hole:
  "CHR ''}'' \<notin> set m \<Longrightarrow> blank_in acc (m @ CHR ''}'' # r) = ''{}'' @ blank r"
  by (induction m arbitrary: acc) auto

lemma blank_shapes:
  "CHR ''{'' \<notin> set t \<Longrightarrow> blank t = t"
  "CHR ''{'' \<notin> set t \<Longrightarrow> CHR ''}'' \<notin> set u \<Longrightarrow> blank (t @ CHR ''{'' # u) = t @ CHR ''{'' # u"
  "CHR ''{'' \<notin> set t \<Longrightarrow> CHR ''}'' \<notin> set m \<Longrightarrow>
     blank (t @ CHR ''{'' # m @ CHR ''}'' # r) = t @ ''{}'' @ blank r"
  using blank_plain [of t "[]"]
  by (simp_all add: blank_plain blank_in_unclosed blank_in_hole)

text \<open>\<open>replace\<close> of a placeholder on the three shapes.\<close>

lemma braced_not_Nil [simp]: "braced m \<noteq> []"
  by (simp add: braced_def)

lemma replace_Nil: "old \<noteq> [] \<Longrightarrow> replace old new [] = []"
  by (subst replace.simps) simp

lemma replace_skip:
  "old \<noteq> [] \<Longrightarrow> \<not> prefix old (c # s) \<Longrightarrow> replace old new (c # s) = c # replace old new s"
  by (subst replace.simps) simp

lemma replace_match: "old \<noteq> [] \<Longrightarrow> replace old new (old @ s) = new @ replace old new s"
  by (subst replace.simps) (auto simp: neq_Nil_conv)

lemma replace_plain:
  "CHR ''{'' \<notin> set t \<Longrightarrow> replace (braced m) new (t @ s) = t @ replace (braced m) new s"
proof (induction t)
  case Nil
  then show ?case by simp
next
  case (Cons c t)
  then have "\<not> prefix (braced m) (c # t @ s)"
    by (auto simp: braced_def)
  with Cons show ?case
    by (simp add: replace_skip)
qed

lemma replace_unclosed:
  "CHR ''}'' \<notin> set u \<Longrightarrow> replace (braced m) new u = u"
proof (induction u)
  case Nil
  then show ?case by (simp add: replace_Nil)
next
  case (Cons c u)
  have "\<not> prefix (braced m) (c # u)"
  proof
    assume "prefix (braced m) (c # u)"
    then have "set (braced m) \<subseteq> set (c # u)" by (rule set_mono_prefix)
    with Cons.prems show False by (auto simp: braced_def)
  qed
  with Cons show ?case
    by (simp add: replace_skip)
qed

lemma prefix_brace_eq:
  "CHR ''}'' \<notin> set m \<Longrightarrow> CHR ''}'' \<notin> set m' \<Longrightarrow>
   prefix (m @ CHR ''}'' # x) (m' @ CHR ''}'' # y) \<Longrightarrow> m = m'"
proof (induction m arbitrary: m')
  case Nil
  then show ?case by (cases m') auto
next
  case (Cons c m)
  then show ?case by (cases m') auto
qed

lemma replace_hole:
  assumes m: "CHR ''}'' \<notin> set m" and m': "CHR ''}'' \<notin> set m'" "CHR ''{'' \<notin> set m'"
  shows "replace (braced m) new (CHR ''{'' # m' @ CHR ''}'' # r) =
           (if m' = m then new else braced m') @ replace (braced m) new r"
proof (cases "m' = m")
  case True
  have "CHR ''{'' # m @ CHR ''}'' # r = braced m @ r"
    by (simp add: braced_def)
  then have "replace (braced m) new (CHR ''{'' # m @ CHR ''}'' # r) =
      new @ replace (braced m) new r"
    by (simp only: replace_match [OF braced_not_Nil])
  with True show ?thesis by simp
next
  case False
  have np: "\<not> prefix (braced m) (CHR ''{'' # m' @ CHR ''}'' # r)"
  proof
    assume "prefix (braced m) (CHR ''{'' # m' @ CHR ''}'' # r)"
    then have "prefix (m @ CHR ''}'' # []) (m' @ CHR ''}'' # r)"
      by (simp add: braced_def)
    from prefix_brace_eq [OF m m'(1) this] False show False by simp
  qed
  have "CHR ''{'' \<notin> set (m' @ ''}'')" using m'(2) by simp
  from replace_plain [OF this, of m new r]
  have "replace (braced m) new (m' @ CHR ''}'' # r) = m' @ CHR ''}'' # replace (braced m) new r"
    by simp
  with np False show ?thesis
    by (simp add: replace_skip braced_def [of m'])
qed

lemma replace_is_blank_only:
  "CHR ''}'' \<notin> set m \<Longrightarrow> no_inner_brace s \<Longrightarrow>
   replace (braced m) ''{}'' s = blank_only [m] s"
proof (induction s rule: brace_induct)
  case (plain t)
  then show ?case
    using replace_plain [of t m "''{}''" "[]"] blank_only_shapes(1) [of t "[m]"]
      replace_unclosed [of "[]" m "''{}''"]
    by simp
next
  case (unclosed t u)
  then show ?case
    using replace_plain [of t m "''{}''" "CHR ''{'' # u"]
      replace_unclosed [of "CHR ''{'' # u" m "''{}''"]
    by (simp add: blank_only_shapes)
next
  case (hole t m' r)
  then have inner: "CHR ''{'' \<notin> set m'" and r: "no_inner_brace r"
    by (simp_all add: no_inner_brace_def findall_shapes)
  show ?case
    using hole r inner replace_plain [of t m "''{}''" "CHR ''{'' # m' @ CHR ''}'' # r"]
      replace_hole [of m m' "''{}''" r]
    by (auto simp: blank_only_shapes braced_def)
qed


lemma blank_only_Nil: "blank_only [] s = s"
  by (induction s rule: brace_induct) (simp_all add: blank_only_shapes)

lemma findall_blank_only:
  "findall (blank_only ms s) = map (\<lambda>x. if x \<in> set ms then [] else x) (findall s)"
proof (induction s rule: brace_induct)
  case (plain t)
  then show ?case by (simp add: blank_only_shapes findall_shapes)
next
  case (unclosed t u)
  then show ?case by (simp add: blank_only_shapes findall_shapes)
next
  case (hole t m r)
  then show ?case
    using findall_shapes(3) [of t "[]" "blank_only ms r"]
      findall_shapes(3) [of t m "blank_only ms r"]
    by (simp add: blank_only_shapes findall_shapes)
qed

lemma no_inner_brace_blank_only: "no_inner_brace s \<Longrightarrow> no_inner_brace (blank_only ms s)"
  by (auto simp: no_inner_brace_def findall_blank_only list_all_iff)

lemma blank_only_twice: "blank_only ms (blank_only [m] s) = blank_only (m # ms) s"
proof (induction s rule: brace_induct)
  case (plain t)
  then show ?case by (simp add: blank_only_shapes)
next
  case (unclosed t u)
  then show ?case by (simp add: blank_only_shapes)
next
  case (hole t x r)
  then show ?case
    using blank_only_marker [of t ms "blank_only [m] r"]
      blank_only_shapes(3) [of t x ms "blank_only [m] r"]
    by (simp add: blank_only_shapes)
qed

lemma replace_placeholders_blank_only:
  "no_inner_brace s \<Longrightarrow> \<forall>m \<in> set ms. CHR ''}'' \<notin> set m \<Longrightarrow>
   replace_placeholders s ms = blank_only ms s"
proof (induction ms arbitrary: s)
  case Nil
  then show ?case by (simp add: blank_only_Nil)
next
  case (Cons m ms)
  have "replace (CHR ''{'' # m @ ''}'') ''{}'' s = blank_only [m] s"
    using replace_is_blank_only [of m s] Cons.prems by (simp add: braced_def)
  moreover have "replace_placeholders (blank_only [m] s) ms = blank_only ms (blank_only [m] s)"
    using Cons.IH [of "blank_only [m] s"] Cons.prems no_inner_brace_blank_only by simp
  ultimately show ?case by (simp add: blank_only_twice)
qed

lemma blank_only_all: "set (findall s) \<subseteq> set ms \<Longrightarrow> blank_only ms s = blank s"
  by (induction s rule: brace_induct) (simp_all add: blank_only_shapes blank_shapes findall_shapes)

lemma findall_no_closing: "\<forall>m \<in> set (findall s). CHR ''}'' \<notin> set m"
  by (induction s rule: brace_induct) (simp_all add: findall_shapes)

lemma replace_placeholders_blank:
  "no_inner_brace s \<Longrightarrow> replace_placeholders s (findall s) = blank s"
  using replace_placeholders_blank_only [of s "findall s"] findall_no_closing [of s]
    blank_only_all [of s "findall s"]
  by simp

lemma fill_skip: "c \<noteq> CHR ''{'' \<Longrightarrow> fill (c # cs) xs = c # fill cs xs"
  by (cases cs; cases xs) simp_all

lemma fill_plain: "CHR ''{'' \<notin> set t \<Longrightarrow> fill (t @ s) xs = t @ fill s xs"
  by (induction t) (auto simp: fill_skip)

lemma fill_Nil: "fill s [] = s"
  by (induction s) simp_all

lemma fill_blank: "fill (blank s) (map braced (findall s)) = s"
proof (induction s rule: brace_induct)
  case (plain t)
  then show ?case by (simp add: blank_shapes findall_shapes fill_Nil)
next
  case (unclosed t u)
  then show ?case by (simp add: blank_shapes findall_shapes fill_Nil)
next
  case (hole t m r)
  then show ?case
    by (simp add: blank_shapes findall_shapes fill_plain braced_def)
qed

subsection \<open>String templates\<close>

text \<open>
  C1, as the code has it. For a string literal whose text, its first and last character
  stripped, holds at least one placeholder, \<^verbatim>\<open>Objects.string\<close> returns a dictionary whose
  key \<^verbatim>\<open>values\<close> holds one path of one segment for each placeholder occurrence, in the order
  of the occurrences and with duplicates kept, and whose key \<^verbatim>\<open>string\<close> holds what
  \<^verbatim>\<open>replace_placeholders\<close> makes of the text. When no placeholder has an opening brace in
  its inner text, that template is the text with every placeholder occurrence replaced by
  the marker \<^verbatim>\<open>{}\<close>; and filling the markers of the text so blanked, from left to right,
  with the placeholders in the order of the matches gives the text back.
\<close>

theorem string_template:
  "(findall (slice_1_m1 v) \<noteq> [] \<longrightarrow>
      string (Tree d (Token ty v # cs)) =
        Inr (PDict [(''$OBJECT'', PStr ''string''),
                    (''string'', PStr (replace_placeholders (slice_1_m1 v)
                                         (findall (slice_1_m1 v)))),
                    (''values'', PList (map path_of_name (findall (slice_1_m1 v))))]))
   \<and> (no_inner_brace (slice_1_m1 v) \<longrightarrow>
        replace_placeholders (slice_1_m1 v) (findall (slice_1_m1 v)) = blank (slice_1_m1 v))
   \<and> fill (blank (slice_1_m1 v)) (map braced (findall (slice_1_m1 v))) = slice_1_m1 v"
  by (simp add: string_def child0_value_def placeholders_values_map path_of_name_def [abs_def]
        replace_placeholders_blank fill_blank Let_def)

theorem string_template_witness:
  "findall (slice_1_m1 (quoted ''Hi {name}, {name} and {x}!'')) \<noteq> []
   \<and> no_inner_brace (slice_1_m1 (quoted ''Hi {name}, {name} and {x}!''))
   \<and> string (Tree ''string'' [Token ''DOUBLE_QUOTED'' (quoted ''Hi {name}, {name} and {x}!'')]) =
        Inr (PDict [(''$OBJECT'', PStr ''string''),
                    (''string'', PStr ''Hi {}, {} and {}!''),
                    (''values'', PList [path_of_name ''name'', path_of_name ''name'',
                                        path_of_name ''x''])])
   \<and> fill ''Hi {}, {} and {}!'' [''{name}'', ''{name}'', ''{x}''] = ''Hi {name}, {name} and {x}!''"
  using string_template [where v = "quoted ''Hi {name}, {name} and {x}!''"
      and d = "''string''" and ty = "''DOUBLE_QUOTED''" and cs = "[]"]
  by (simp add: no_inner_brace_def braced_def)

text \<open>
  C1 as stated fails on the literal \<^verbatim>\<open>"{b}{a{b}"\<close>: its placeholders are \<^verbatim>\<open>b\<close> and \<^verbatim>\<open>a{b\<close>, the
  first pass of \<^verbatim>\<open>str.replace\<close> also rewrites the end of the second placeholder, and the
  stored template \<^verbatim>\<open>{}{a{}\<close> is not the text with both occurrences replaced, nor does
  filling it give the text back. And a literal with no placeholder has no substitution
  list at all.
\<close>

theorem string_template_counterexample:
  "string (Tree ''string'' [Token ''DOUBLE_QUOTED'' (quoted ''{b}{a{b}'')]) =
     Inr (PDict [(''$OBJECT'', PStr ''string''),
                 (''string'', PStr ''{}{a{}''),
                 (''values'', PList [path_of_name ''b'', path_of_name ''a{b''])])
   \<and> blank ''{b}{a{b}'' = ''{}{}''
   \<and> fill ''{}{a{}'' [''{b}'', ''{a{b}''] \<noteq> ''{b}{a{b}''
   \<and> string (Tree ''string'' [Token ''DOUBLE_QUOTED'' (quoted ''hi'')]) =
     Inr (PDict [(''$OBJECT'', PStr ''string''), (''string'', PStr ''hi'')])"
  by (simp add: string_def child0_value_def path_of_name_def replace.simps)

subsection \<open>Expressions\<close>

text \<open>
  C2. On a node with a \<^verbatim>\<open>values\<close> slot and an \<^verbatim>\<open>operator\<close> slot whose first child is a token,
  \<^verbatim>\<open>Objects.expression\<close> returns one expression dictionary, not inside a list: its template
  is \<^verbatim>\<open>{}\<close>, a space, the operator's text, a space, \<^verbatim>\<open>{}\<close>, and its operands are the compiled
  \<^verbatim>\<open>values\<close> slot and the compiled third child. On a node without a \<^verbatim>\<open>values\<close> slot and with
  a \<^verbatim>\<open>path_value\<close> slot, it returns a list of one element: the bare compiled left-hand value
  when there is no second child, and otherwise an expression dictionary with the
  comparison's token text in the template and the two compiled operands. So \<^verbatim>\<open>x > 3\<close> gives
  the template \<^verbatim>\<open>{} > {}\<close> with the operands path \<^verbatim>\<open>x\<close> and 3.
\<close>

theorem expression_shapes:
  "(node ''values'' cs = Some l \<and> node ''operator'' cs = Some (Tree od (Token oty op # ocs))
      \<and> values l = Inr a \<and> values_of (nth_opt cs 2) = Inr b \<longrightarrow>
      expression rp (Tree d cs) =
        Inr (PDict [(''$OBJECT'', PStr ''expression''),
                    (''expression'', PStr (''{}'' @ '' '' @ op @ '' '' @ ''{}'')),
                    (''values'', PList [a, b])]))
   \<and> (node ''values'' cs = None \<and> node ''path_value'' cs = Some (Tree pd (l # pcs))
      \<and> values l = Inr a \<and> nth_opt cs 1 = None \<longrightarrow>
      expression rp (Tree d cs) = Inr (PList [a]))
   \<and> (node ''values'' cs = None \<and> node ''path_value'' cs = Some (Tree pd (l # pcs))
      \<and> values l = Inr a \<and> nth_opt cs 1 = Some (Tree cd (Token cty op # ccs))
      \<and> nth_opt cs 2 = Some (Tree rd (r # rcs)) \<and> values r = Inr b \<longrightarrow>
      expression rp (Tree d cs) =
        Inr (PList [PDict [(''$OBJECT'', PStr ''expression''),
                           (''expression'', PStr (''{}'' @ '' '' @ op @ '' '' @ ''{}'')),
                           (''values'', PList [a, b])]]))
   \<and> expression rp
        (Tree ''expression''
           [Tree ''path_value'' [Tree ''path'' [Token ''NAME'' ''x'']],
            Tree ''comparison'' [Token ''GREATER'' ''>''],
            Tree ''path_value'' [Tree ''values'' [Tree ''number'' [Token ''INT'' ''3'']]]]) =
       Inr (PList [PDict [(''$OBJECT'', PStr ''expression''),
              (''expression'', PStr ''{} > {}''),
              (''values'', PList [PDict [(''$OBJECT'', PStr ''path''),
                                          (''paths'', PList [PStr ''x''])],
                                   PInt 3])]])"
  by (simp add: fill_expression_def node_def eval_number)

theorem expression_shapes_witness:
  "node ''values'' [Tree ''values'' [Tree ''number'' [Token ''INT'' ''1'']],
       Tree ''operator'' [Token ''PLUS'' ''+''],
       Tree ''values'' [Tree ''number'' [Token ''INT'' ''2'']]] =
     Some (Tree ''values'' [Tree ''number'' [Token ''INT'' ''1'']])
   \<and> expression (\<lambda>t. []) (Tree ''expression''
      [Tree ''values'' [Tree ''number'' [Token ''INT'' ''1'']],
       Tree ''operator'' [Token ''PLUS'' ''+''],
       Tree ''values'' [Tree ''number'' [Token ''INT'' ''2'']]]) =
     Inr (PDict [(''$OBJECT'', PStr ''expression''), (''expression'', PStr ''{} + {}''),
                 (''values'', PList [PInt 1, PInt 2])])
   \<and> node ''values'' [Tree ''path_value'' [Tree ''path'' [Token ''NAME'' ''x'']]] = None
   \<and> expression (\<lambda>t. []) (Tree ''expression''
        [Tree ''path_value'' [Tree ''path'' [Token ''NAME'' ''x'']]]) =
     Inr (PList [PDict [(''$OBJECT'', PStr ''path''), (''paths'', PList [PStr ''x''])]])
   \<and> expression (\<lambda>t. [])
        (Tree ''expression''
           [Tree ''path_value'' [Tree ''path'' [Token ''NAME'' ''x'']],
            Tree ''comparison'' [Token ''GREATER'' ''>''],
            Tree ''path_value'' [Tree ''values'' [Tree ''number'' [Token ''INT'' ''3'']]]]) =
       Inr (PList [PDict [(''$OBJECT'', PStr ''expression''),
              (''expression'', PStr ''{} > {}''),
              (''values'', PList [PDict [(''$OBJECT'', PStr ''path''),
                                          (''paths'', PList [PStr ''x''])],
                                   PInt 3])]])"
  using expression_shapes [where cs =
      "[Tree ''values'' [Tree ''number'' [Token ''INT'' ''1'']],
        Tree ''operator'' [Token ''PLUS'' ''+''],
        Tree ''values'' [Tree ''number'' [Token ''INT'' ''2'']]]"
      and l = "Tree ''values'' [Tree ''number'' [Token ''INT'' ''1'']]"
      and od = "''operator''" and oty = "''PLUS''" and op = "''+''" and ocs = "[]"
      and a = "PInt 1" and b = "PInt 2" and rp = "\<lambda>t. []" and d = "''expression''"]
    expression_shapes [where cs = "[Tree ''path_value'' [Tree ''path'' [Token ''NAME'' ''x'']]]"
      and l = "Tree ''path'' [Token ''NAME'' ''x'']" and pd = "''path_value''" and pcs = "[]"
      and a = "PDict [(''$OBJECT'', PStr ''path''), (''paths'', PList [PStr ''x''])]"
      and rp = "\<lambda>t. []" and d = "''expression''"]
    expression_shapes [where cs =
      "[Tree ''path_value'' [Tree ''path'' [Token ''NAME'' ''x'']],
        Tree ''comparison'' [Token ''GREATER'' ''>''],
        Tree ''path_value'' [Tree ''values'' [Tree ''number'' [Token ''INT'' ''3'']]]]"
      and l = "Tree ''path'' [Token ''NAME'' ''x'']" and pd = "''path_value''" and pcs = "[]"
      and a = "PDict [(''$OBJECT'', PStr ''path''), (''paths'', PList [PStr ''x''])]"
      and cd = "''comparison''" and cty = "''GREATER''" and op = "''>''" and ccs = "[]"
      and rd = "''path_value''" and r = "Tree ''values'' [Tree ''number'' [Token ''INT'' ''3'']]"
      and rcs = "[]" and b = "PInt 3" and rp = "\<lambda>t. []" and d = "''expression''"]
  by (simp add: node_def eval_number)

subsection \<open>Paths\<close>

text \<open>
  C3. On a path node whose first child is a token, \<^verbatim>\<open>Objects.path\<close> returns a path whose
  first segment is that token's text and whose further segments are what the following
  fragments give, in order. A fragment whose first child is a token gives the token's
  text; one whose first child is a string node gives the literal's text without its first
  and last character (the quotes); one whose first child is a path node gives the path
  that node resolves to. So \<^verbatim>\<open>a.b.c\<close> gives the segments a, b, c and \<^verbatim>\<open>a["b"]\<close> gives a, b.
\<close>

theorem path_resolution:
  "(list_all2 (\<lambda>f v. segment f = Inr v) fs vs \<longrightarrow>
      path (Tree d (Token ty n # fs)) =
        Inr (PDict [(''$OBJECT'', PStr ''path''), (''paths'', PList (PStr n # vs))]))
   \<and> segment (Tree fd (Token fty v # r)) = Inr (PStr v)
   \<and> segment (Tree fd (Tree ''string'' (Token sty (q # s @ [q']) # r') # r)) = Inr (PStr s)
   \<and> segment (Tree fd (Tree ''path'' ccs # r)) = path (Tree ''path'' ccs)
   \<and> path (Tree ''path'' [Token ''NAME'' ''a'', Tree ''path_fragment'' [Token ''NAME'' ''b''],
              Tree ''path_fragment'' [Token ''NAME'' ''c'']]) =
        Inr (PDict [(''$OBJECT'', PStr ''path''),
                    (''paths'', PList [PStr ''a'', PStr ''b'', PStr ''c''])])
   \<and> path (Tree ''path'' [Token ''NAME'' ''a'',
              Tree ''path_fragment'' [Tree ''string'' [Token ''DOUBLE_QUOTED'' (quoted ''b'')]]]) =
        Inr (PDict [(''$OBJECT'', PStr ''path''), (''paths'', PList [PStr ''a'', PStr ''b''])])"
  by (simp add: fragments_all2 child0_value_def)

theorem path_resolution_witness:
  "list_all2 (\<lambda>f v. segment f = Inr v)
     [Tree ''path_fragment'' [Token ''NAME'' ''b''],
      Tree ''path_fragment'' [Tree ''string'' [Token ''DOUBLE_QUOTED'' (quoted ''k'')]],
      Tree ''path_fragment'' [Tree ''path'' [Token ''NAME'' ''c'',
         Tree ''path_fragment'' [Token ''NAME'' ''d'']]]]
     [PStr ''b'', PStr ''k'',
      PDict [(''$OBJECT'', PStr ''path''), (''paths'', PList [PStr ''c'', PStr ''d''])]]
   \<and> path (Tree ''path'' [Token ''NAME'' ''a'',
      Tree ''path_fragment'' [Token ''NAME'' ''b''],
      Tree ''path_fragment'' [Tree ''string'' [Token ''DOUBLE_QUOTED'' (quoted ''k'')]],
      Tree ''path_fragment'' [Tree ''path'' [Token ''NAME'' ''c'',
         Tree ''path_fragment'' [Token ''NAME'' ''d'']]]]) =
     Inr (PDict [(''$OBJECT'', PStr ''path''),
       (''paths'', PList [PStr ''a'', PStr ''b'', PStr ''k'',
          PDict [(''$OBJECT'', PStr ''path''), (''paths'', PList [PStr ''c'', PStr ''d''])]])])"
  using path_resolution [where fs =
     "[Tree ''path_fragment'' [Token ''NAME'' ''b''],
      Tree ''path_fragment'' [Tree ''string'' [Token ''DOUBLE_QUOTED'' (quoted ''k'')]],
      Tree ''path_fragment'' [Tree ''path'' [Token ''NAME'' ''c'',
         Tree ''path_fragment'' [Token ''NAME'' ''d'']]]]"
     and vs = "[PStr ''b'', PStr ''k'',
      PDict [(''$OBJECT'', PStr ''path''), (''paths'', PList [PStr ''c'', PStr ''d''])]]"
     and d = "''path''" and ty = "''NAME''" and n = "''a''"]
  by (simp add: child0_value_def)

subsection \<open>Mutations\<close>

text \<open>
  C4. On a mutation node whose first child is a token, \<^verbatim>\<open>Objects.mutation\<close> returns a
  mutation whose arguments are what \<^verbatim>\<open>Objects.arguments\<close> returns on the \<^verbatim>\<open>arguments\<close> slot
  when the node has one, and the empty list otherwise, and whose name is the first
  child's text when the node has no \<^verbatim>\<open>command\<close> slot, and the text of the command's first
  token when it has one. So \<^verbatim>\<open>obj.run(a: 1)\<close> gives the name \<^verbatim>\<open>run\<close> and one argument, and a
  command \<^verbatim>\<open>go\<close> overrides the name.
\<close>

theorem mutation_name_and_arguments:
  "((case node ''arguments'' cs of None \<Rightarrow> Inr [] | Some a \<Rightarrow> arguments fd a) = Inr args \<longrightarrow>
      (node ''command'' cs = None \<longrightarrow>
         mutation fd (Tree d (Token ty n # cs)) =
           Inr (PDict [(''$OBJECT'', PStr ''mutation''), (''mutation'', PStr n),
                       (''arguments'', PList args)]))
      \<and> (node ''command'' cs = Some (Tree cd (Token cty m # ccs)) \<longrightarrow>
         mutation fd (Tree d (Token ty n # cs)) =
           Inr (PDict [(''$OBJECT'', PStr ''mutation''), (''mutation'', PStr m),
                       (''arguments'', PList args)])))
   \<and> mutation find_data
        (Tree ''mutation'' [Token ''NAME'' ''run'',
           Tree ''arguments'' [Token ''NAME'' ''a'',
             Tree ''values'' [Tree ''number'' [Token ''INT'' ''1'']]]]) =
       Inr (PDict [(''$OBJECT'', PStr ''mutation''), (''mutation'', PStr ''run''),
              (''arguments'', PList [PDict [(''$OBJECT'', PStr ''argument''),
                 (''name'', PStr ''a''), (''argument'', PInt 1)]])])
   \<and> mutation find_data
        (Tree ''mutation'' [Token ''NAME'' ''run'',
           Tree ''arguments'' [Token ''NAME'' ''a'',
             Tree ''values'' [Tree ''number'' [Token ''INT'' ''1'']]],
           Tree ''command'' [Token ''NAME'' ''go'']]) =
       Inr (PDict [(''$OBJECT'', PStr ''mutation''), (''mutation'', PStr ''go''),
              (''arguments'', PList [PDict [(''$OBJECT'', PStr ''argument''),
                 (''name'', PStr ''a''), (''argument'', PInt 1)]])])"
  by (simp add: find_data_def node_def eval_number)

theorem mutation_name_and_arguments_witness:
  "(case node ''arguments''
       [Tree ''arguments'' [Token ''NAME'' ''a'',
          Tree ''values'' [Tree ''number'' [Token ''INT'' ''1'']]],
        Tree ''command'' [Token ''NAME'' ''go'']] of
      None \<Rightarrow> Inr [] | Some a \<Rightarrow> arguments find_data a) =
     Inr [PDict [(''$OBJECT'', PStr ''argument''), (''name'', PStr ''a''),
                 (''argument'', PInt 1)]]
   \<and> node ''command''
       [Tree ''arguments'' [Token ''NAME'' ''a'',
          Tree ''values'' [Tree ''number'' [Token ''INT'' ''1'']]],
        Tree ''command'' [Token ''NAME'' ''go'']] =
       Some (Tree ''command'' [Token ''NAME'' ''go''])
   \<and> mutation find_data (Tree ''mutation'' [Token ''NAME'' ''run'',
         Tree ''arguments'' [Token ''NAME'' ''a'',
           Tree ''values'' [Tree ''number'' [Token ''INT'' ''1'']]],
         Tree ''command'' [Token ''NAME'' ''go'']]) =
       Inr (PDict [(''$OBJECT'', PStr ''mutation''), (''mutation'', PStr ''go''),
              (''arguments'', PList [PDict [(''$OBJECT'', PStr ''argument''),
                 (''name'', PStr ''a''), (''argument'', PInt 1)]])])
   \<and> (case node ''arguments'' [] of
      None \<Rightarrow> Inr [] | Some a \<Rightarrow> arguments find_data a) = Inr []
   \<and> node ''command'' [] = None
   \<and> mutation find_data (Tree ''mutation'' [Token ''NAME'' ''run'']) =
       Inr (PDict [(''$OBJECT'', PStr ''mutation''), (''mutation'', PStr ''run''),
              (''arguments'', PList [])])"
  using mutation_name_and_arguments [where cs =
        "[Tree ''arguments'' [Token ''NAME'' ''a'',
            Tree ''values'' [Tree ''number'' [Token ''INT'' ''1'']]],
          Tree ''command'' [Token ''NAME'' ''go'']]"
      and fd = find_data
      and args = "[PDict [(''$OBJECT'', PStr ''argument''), (''name'', PStr ''a''),
                          (''argument'', PInt 1)]]"
      and d = "''mutation''" and ty = "''NAME''"
      and n = "''run''" and cd = "''command''" and cty = "''NAME''" and m = "''go''"
      and ccs = "[]"]
    mutation_name_and_arguments [where cs = "[]" and fd = find_data and args = "[]"
      and d = "''mutation''" and ty = "''NAME''" and n = "''run''"]
  by (simp add: find_data_def node_def eval_number)

subsection \<open>Booleans\<close>

text \<open>
  C5. On a boolean node whose first child is a token, \<^verbatim>\<open>Objects.boolean\<close> returns true
  exactly when the token's text is the lowercase text \<^verbatim>\<open>true\<close>, and false for every other
  text: for \<^verbatim>\<open>false\<close>, for the case variant \<^verbatim>\<open>True\<close>, and for any other text.
\<close>

theorem boolean_true_iff:
  "boolean (Tree d (Token ty v # cs)) = Inr (PBool (v = ''true''))
   \<and> boolean (Tree ''boolean'' [Token ''TRUE'' ''true'']) = Inr (PBool True)
   \<and> boolean (Tree ''boolean'' [Token ''FALSE'' ''false'']) = Inr (PBool False)
   \<and> boolean (Tree ''boolean'' [Token ''TRUE'' ''True'']) = Inr (PBool False)"
  by (simp add: boolean_def child0_value_def)

subsection \<open>Lists and dictionaries\<close>

text \<open>
  C6. When the N children of a list node compile to the values \<open>vs\<close>, \<^verbatim>\<open>Objects.list\<close>
  returns a list literal whose items are exactly \<open>vs\<close>: N items, the i-th the compiled
  i-th child. When the key node of each entry of a dict node is a string node or a path
  node, and the M entries compile to the pairs \<open>kvs\<close> (the key as a string literal for a
  string node and as a path otherwise, the value by \<open>values\<close>), \<^verbatim>\<open>Objects.objects\<close> returns a
  dict literal whose items are exactly \<open>kvs\<close>: M pairs in declaration order, nothing
  merged or dropped, also for equal keys.
\<close>

theorem composite_literals_keep_order:
  "(list_all2 (\<lambda>c v. values c = Inr v) cs vs \<longrightarrow>
      list (Tree d cs) = Inr (PDict [(''$OBJECT'', PStr ''list''), (''items'', PList vs)])
      \<and> length vs = length cs)
   \<and> ((\<forall>e \<in> set es. key_is_string_or_path e)
       \<and> list_all2 (\<lambda>e kv. dict_entry e = Inr kv) es kvs \<longrightarrow>
      objects (Tree d' es) = Inr (PDict [(''$OBJECT'', PStr ''dict''), (''items'', PList kvs)])
      \<and> length kvs = length es)"
  by (auto simp: list_items_all2 objects_items_all2 dest: list_all2_lengthD)

theorem composite_literals_keep_order_witness:
  "list_all2 (\<lambda>c v. values c = Inr v)
     [Tree ''values'' [Tree ''number'' [Token ''INT'' ''2'']],
      Tree ''values'' [Tree ''boolean'' [Token ''TRUE'' ''true'']],
      Tree ''values'' [Tree ''number'' [Token ''INT'' ''2'']]]
     [PInt 2, PBool True, PInt 2]
   \<and> list (Tree ''list''
     [Tree ''values'' [Tree ''number'' [Token ''INT'' ''2'']],
      Tree ''values'' [Tree ''boolean'' [Token ''TRUE'' ''true'']],
      Tree ''values'' [Tree ''number'' [Token ''INT'' ''2'']]]) =
     Inr (PDict [(''$OBJECT'', PStr ''list''), (''items'', PList [PInt 2, PBool True, PInt 2])])
   \<and> list_all2 (\<lambda>e kv. dict_entry e = Inr kv)
     [Tree ''key_value'' [Tree ''string'' [Token ''DOUBLE_QUOTED'' (quoted ''k'')],
        Tree ''values'' [Tree ''number'' [Token ''INT'' ''1'']]],
      Tree ''key_value'' [Tree ''path'' [Token ''NAME'' ''p''],
        Tree ''values'' [Tree ''number'' [Token ''INT'' ''2'']]],
      Tree ''key_value'' [Tree ''string'' [Token ''DOUBLE_QUOTED'' (quoted ''k'')],
        Tree ''values'' [Tree ''number'' [Token ''INT'' ''3'']]]]
     [PList [PDict [(''$OBJECT'', PStr ''string''), (''string'', PStr ''k'')], PInt 1],
      PList [PDict [(''$OBJECT'', PStr ''path''), (''paths'', PList [PStr ''p''])], PInt 2],
      PList [PDict [(''$OBJECT'', PStr ''string''), (''string'', PStr ''k'')], PInt 3]]
   \<and> objects (Tree ''objects''
     [Tree ''key_value'' [Tree ''string'' [Token ''DOUBLE_QUOTED'' (quoted ''k'')],
        Tree ''values'' [Tree ''number'' [Token ''INT'' ''1'']]],
      Tree ''key_value'' [Tree ''path'' [Token ''NAME'' ''p''],
        Tree ''values'' [Tree ''number'' [Token ''INT'' ''2'']]],
      Tree ''key_value'' [Tree ''string'' [Token ''DOUBLE_QUOTED'' (quoted ''k'')],
        Tree ''values'' [Tree ''number'' [Token ''INT'' ''3'']]]]) =
     Inr (PDict [(''$OBJECT'', PStr ''dict''), (''items'', PList
     [PList [PDict [(''$OBJECT'', PStr ''string''), (''string'', PStr ''k'')], PInt 1],
      PList [PDict [(''$OBJECT'', PStr ''path''), (''paths'', PList [PStr ''p''])], PInt 2],
      PList [PDict [(''$OBJECT'', PStr ''string''), (''string'', PStr ''k'')], PInt 3]])])"
  using composite_literals_keep_order [where cs =
     "[Tree ''values'' [Tree ''number'' [Token ''INT'' ''2'']],
      Tree ''values'' [Tree ''boolean'' [Token ''TRUE'' ''true'']],
      Tree ''values'' [Tree ''number'' [Token ''INT'' ''2'']]]"
     and vs = "[PInt 2, PBool True, PInt 2]" and d = "''list''" and d' = "''objects''"
     and es =
     "[Tree ''key_value'' [Tree ''string'' [Token ''DOUBLE_QUOTED'' (quoted ''k'')],
        Tree ''values'' [Tree ''number'' [Token ''INT'' ''1'']]],
      Tree ''key_value'' [Tree ''path'' [Token ''NAME'' ''p''],
        Tree ''values'' [Tree ''number'' [Token ''INT'' ''2'']]],
      Tree ''key_value'' [Tree ''string'' [Token ''DOUBLE_QUOTED'' (quoted ''k'')],
        Tree ''values'' [Tree ''number'' [Token ''INT'' ''3'']]]]"
     and kvs =
     "[PList [PDict [(''$OBJECT'', PStr ''string''), (''string'', PStr ''k'')], PInt 1],
      PList [PDict [(''$OBJECT'', PStr ''path''), (''paths'', PList [PStr ''p''])], PInt 2],
      PList [PDict [(''$OBJECT'', PStr ''string''), (''string'', PStr ''k'')], PInt 3]]"]
  by (simp add: string_def boolean_def eval_number)

subsection \<open>Discriminators\<close>

text \<open>
  C7. Every dictionary a compile operation returns carries the key \<^verbatim>\<open>$OBJECT\<close> with the
  name of its variant: path, string, list, dict, mutation, argument (also for a typed
  argument), expression and type; an expression of the second form is that dictionary,
  or the bare compiled value, inside a list of one element. A number and a boolean are
  returned bare, as an integer and as a truth value, which have no discriminator, and
  whatever \<open>values\<close> returns is \<^verbatim>\<open>None\<close>, bare, or tagged. The number literal \<^verbatim>\<open>42\<close> compiles to
  the integer 42.
\<close>

theorem output_discriminators:
  "(path t1 = Inr v1 \<longrightarrow> discriminator v1 = Some (PStr ''path''))
   \<and> (string t2 = Inr v2 \<longrightarrow> discriminator v2 = Some (PStr ''string''))
   \<and> (list t3 = Inr v3 \<longrightarrow> discriminator v3 = Some (PStr ''list''))
   \<and> (objects t4 = Inr v4 \<longrightarrow> discriminator v4 = Some (PStr ''dict''))
   \<and> (mutation fd t5 = Inr v5 \<longrightarrow> discriminator v5 = Some (PStr ''mutation''))
   \<and> (argument t6 = Inr v6 \<longrightarrow> discriminator v6 = Some (PStr ''argument''))
   \<and> (typed_argument t7 = Inr v7 \<longrightarrow> discriminator v7 = Some (PStr ''argument''))
   \<and> (expression rp t8 = Inr v8 \<longrightarrow>
        discriminator v8 = Some (PStr ''expression'')
        \<or> (\<exists>x. v8 = PList [x] \<and>
              (discriminator x = Some (PStr ''expression'') \<or> (\<exists>l. values_of l = Inr x))))
   \<and> (types t9 = Inr v9 \<longrightarrow> discriminator v9 = Some (PStr ''type''))
   \<and> (number t10 = Inr v10 \<longrightarrow> (\<exists>n. v10 = PInt n))
   \<and> (boolean t11 = Inr v11 \<longrightarrow> (\<exists>b. v11 = PBool b))
   \<and> (values t12 = Inr v12 \<longrightarrow>
        v12 = PNone \<or> (\<exists>b. v12 = PBool b) \<or> (\<exists>n. v12 = PInt n)
        \<or> discriminator v12 \<in> {Some (PStr ''path''), Some (PStr ''string''),
             Some (PStr ''list''), Some (PStr ''dict''), Some (PStr ''type'')})
   \<and> discriminator (PInt n) = None \<and> discriminator (PBool b) = None
   \<and> number (Tree ''number'' [Token ''INT'' ''42'']) = Inr (PInt 42)"
proof -
  have c1: "path t1 = Inr v1 \<longrightarrow> discriminator v1 = Some (PStr ''path'')"
    by (simp add: path_disc)
  have c2: "string t2 = Inr v2 \<longrightarrow> discriminator v2 = Some (PStr ''string'')"
    by (simp add: string_disc)
  have c3: "list t3 = Inr v3 \<longrightarrow> discriminator v3 = Some (PStr ''list'')"
    by (simp add: list_disc)
  have c4: "objects t4 = Inr v4 \<longrightarrow> discriminator v4 = Some (PStr ''dict'')"
    by (simp add: objects_disc)
  have c5: "mutation fd t5 = Inr v5 \<longrightarrow> discriminator v5 = Some (PStr ''mutation'')"
    by (simp add: mutation_disc)
  have c6: "argument t6 = Inr v6 \<longrightarrow> discriminator v6 = Some (PStr ''argument'')"
    by (simp add: argument_disc)
  have c7: "typed_argument t7 = Inr v7 \<longrightarrow> discriminator v7 = Some (PStr ''argument'')"
    by (simp add: typed_argument_disc)
  have c8: "expression rp t8 = Inr v8 \<longrightarrow>
        discriminator v8 = Some (PStr ''expression'')
        \<or> (\<exists>x. v8 = PList [x] \<and>
              (discriminator x = Some (PStr ''expression'') \<or> (\<exists>l. values_of l = Inr x)))"
    using expression_disc [of rp t8 v8] by (rule impI)
  have c9: "types t9 = Inr v9 \<longrightarrow> discriminator v9 = Some (PStr ''type'')"
    by (simp add: types_disc)
  have c10: "number t10 = Inr v10 \<longrightarrow> (\<exists>n. v10 = PInt n)"
    using number_bare [of t10 v10] by (rule impI)
  have c11: "boolean t11 = Inr v11 \<longrightarrow> (\<exists>b. v11 = PBool b)"
    using boolean_bare [of t11 v11] by (rule impI)
  have c12: "values t12 = Inr v12 \<longrightarrow>
        v12 = PNone \<or> (\<exists>b. v12 = PBool b) \<or> (\<exists>n. v12 = PInt n)
        \<or> discriminator v12 \<in> {Some (PStr ''path''), Some (PStr ''string''),
             Some (PStr ''list''), Some (PStr ''dict''), Some (PStr ''type'')}"
    using values_disc [of t12 v12] by (rule impI)
  have c13: "discriminator (PInt n) = None"
    by (simp add: discriminator_def)
  have c14: "discriminator (PBool b) = None"
    by (simp add: discriminator_def)
  have c15: "number (Tree ''number'' [Token ''INT'' ''42'']) = Inr (PInt 42)"
    by (simp add: eval_number)
  show ?thesis
    by (intro conjI c1 c2 c3 c4 c5 c6 c7 c8 c9 c10 c11 c12 c13 c14 c15)
qed

theorem output_discriminators_witness:
  "path (Tree ''path'' [Token ''NAME'' ''a'']) = Inr (path_of_name ''a'')
   \<and> discriminator (path_of_name ''a'') = Some (PStr ''path'')
   \<and> string (Tree ''string'' [Token ''DOUBLE_QUOTED'' (quoted ''s'')]) =
       Inr (PDict [(''$OBJECT'', PStr ''string''), (''string'', PStr ''s'')])
   \<and> discriminator (PDict [(''$OBJECT'', PStr ''string''), (''string'', PStr ''s'')]) =
       Some (PStr ''string'')
   \<and> list (Tree ''list'' []) = Inr (PDict [(''$OBJECT'', PStr ''list''), (''items'', PList [])])
   \<and> discriminator (PDict [(''$OBJECT'', PStr ''list''), (''items'', PList [])]) =
       Some (PStr ''list'')
   \<and> objects (Tree ''objects'' []) =
       Inr (PDict [(''$OBJECT'', PStr ''dict''), (''items'', PList [])])
   \<and> discriminator (PDict [(''$OBJECT'', PStr ''dict''), (''items'', PList [])]) =
       Some (PStr ''dict'')
   \<and> mutation find_data (Tree ''mutation'' [Token ''NAME'' ''run'']) =
       Inr (PDict [(''$OBJECT'', PStr ''mutation''), (''mutation'', PStr ''run''),
                   (''arguments'', PList [])])
   \<and> discriminator (PDict [(''$OBJECT'', PStr ''mutation''), (''mutation'', PStr ''run''),
                   (''arguments'', PList [])]) = Some (PStr ''mutation'')
   \<and> argument (Tree ''arguments'' [Token ''NAME'' ''a'',
         Tree ''values'' [Tree ''number'' [Token ''INT'' ''1'']]]) =
       Inr (PDict [(''$OBJECT'', PStr ''argument''), (''name'', PStr ''a''),
                   (''argument'', PInt 1)])
   \<and> discriminator (PDict [(''$OBJECT'', PStr ''argument''), (''name'', PStr ''a''),
                   (''argument'', PInt 1)]) = Some (PStr ''argument'')
   \<and> typed_argument (Tree ''function_argument'' [Tree ''typed_argument''
         [Token ''NAME'' ''n'', Tree ''number'' [Token ''INT'' ''1'']]]) =
       Inr (PDict [(''$OBJECT'', PStr ''argument''), (''name'', PStr ''n''),
                   (''argument'', PInt 1)])
   \<and> expression (\<lambda>t. []) (Tree ''expression''
        [Tree ''values'' [Tree ''number'' [Token ''INT'' ''1'']],
         Tree ''operator'' [Token ''PLUS'' ''+''],
         Tree ''values'' [Tree ''number'' [Token ''INT'' ''2'']]]) =
       Inr (PDict [(''$OBJECT'', PStr ''expression''), (''expression'', PStr ''{} + {}''),
                   (''values'', PList [PInt 1, PInt 2])])
   \<and> discriminator (PDict [(''$OBJECT'', PStr ''expression''),
         (''expression'', PStr ''{} + {}''), (''values'', PList [PInt 1, PInt 2])]) =
       Some (PStr ''expression'')
   \<and> types (Tree ''types'' [Token ''INT_TYPE'' ''int'']) =
       Inr (PDict [(''$OBJECT'', PStr ''type''), (''type'', PStr ''int'')])
   \<and> discriminator (PDict [(''$OBJECT'', PStr ''type''), (''type'', PStr ''int'')]) =
       Some (PStr ''type'')
   \<and> number (Tree ''number'' [Token ''INT'' ''42'']) = Inr (PInt 42)
   \<and> boolean (Tree ''boolean'' [Token ''TRUE'' ''true'']) = Inr (PBool True)
   \<and> values (Tree ''values'' [Tree ''number'' [Token ''INT'' ''42'']]) = Inr (PInt 42)"
  using output_discriminators [where
      ?t1.0 = "Tree ''path'' [Token ''NAME'' ''a'']" and ?v1.0 = "path_of_name ''a''"
      and ?t2.0 = "Tree ''string'' [Token ''DOUBLE_QUOTED'' (quoted ''s'')]"
      and ?v2.0 = "PDict [(''$OBJECT'', PStr ''string''), (''string'', PStr ''s'')]"
      and ?t3.0 = "Tree ''list'' []"
      and ?v3.0 = "PDict [(''$OBJECT'', PStr ''list''), (''items'', PList [])]"
      and ?t4.0 = "Tree ''objects'' []"
      and ?v4.0 = "PDict [(''$OBJECT'', PStr ''dict''), (''items'', PList [])]"
      and fd = find_data
      and ?t5.0 = "Tree ''mutation'' [Token ''NAME'' ''run'']"
      and ?v5.0 = "PDict [(''$OBJECT'', PStr ''mutation''), (''mutation'', PStr ''run''),
                   (''arguments'', PList [])]"
      and ?t6.0 = "Tree ''arguments'' [Token ''NAME'' ''a'',
         Tree ''values'' [Tree ''number'' [Token ''INT'' ''1'']]]"
      and ?v6.0 = "PDict [(''$OBJECT'', PStr ''argument''), (''name'', PStr ''a''),
                   (''argument'', PInt 1)]"
      and ?t7.0 = "Tree ''function_argument'' [Tree ''typed_argument''
         [Token ''NAME'' ''n'', Tree ''number'' [Token ''INT'' ''1'']]]"
      and ?v7.0 = "PDict [(''$OBJECT'', PStr ''argument''), (''name'', PStr ''n''),
                   (''argument'', PInt 1)]"
      and rp = "\<lambda>t. []"
      and ?t8.0 = "Tree ''expression''
        [Tree ''values'' [Tree ''number'' [Token ''INT'' ''1'']],
         Tree ''operator'' [Token ''PLUS'' ''+''],
         Tree ''values'' [Tree ''number'' [Token ''INT'' ''2'']]]"
      and ?v8.0 = "PDict [(''$OBJECT'', PStr ''expression''),
         (''expression'', PStr ''{} + {}''), (''values'', PList [PInt 1, PInt 2])]"
      and ?t9.0 = "Tree ''types'' [Token ''INT_TYPE'' ''int'']"
      and ?v9.0 = "PDict [(''$OBJECT'', PStr ''type''), (''type'', PStr ''int'')]"
      and ?t10.0 = "Tree ''number'' [Token ''INT'' ''42'']" and ?v10.0 = "PInt 42"
      and ?t11.0 = "Tree ''boolean'' [Token ''TRUE'' ''true'']" and ?v11.0 = "PBool True"
      and ?t12.0 = "Tree ''values'' [Tree ''number'' [Token ''INT'' ''42'']]"
      and ?v12.0 = "PInt 42" and n = 0 and b = True]
  by (simp add: path_of_name_def string_def boolean_def types_def find_data_def node_def
        fill_expression_def discriminator_def eval_number)

subsection \<open>Typed arguments\<close>

text \<open>
  C8. On a node whose \<^verbatim>\<open>typed_argument\<close> slot holds a name token and a value child,
  \<^verbatim>\<open>Objects.typed_argument\<close> returns an argument dictionary, of the shape \<^verbatim>\<open>Objects.argument\<close>
  returns: its name is the token's text, and its value is what \<^verbatim>\<open>Objects.values\<close> returns on
  a synthetic tree holding the value child alone. \<^verbatim>\<open>Objects.values\<close> never looks at the kind
  of the tree it is given, so the result is the result of \<^verbatim>\<open>Objects.argument\<close> for the same
  name and the same value child in its container, whatever the container's kind.
\<close>

theorem typed_argument_agrees:
  "(node ''typed_argument'' cs = Some (Tree sd (Token ty n # c # scs)) \<longrightarrow>
      typed_argument (Tree d cs) =
        (case values (Tree ''anon'' [c]) of
           Inl e \<Rightarrow> Inl e
         | Inr v \<Rightarrow> Inr (PDict [(''$OBJECT'', PStr ''argument''), (''name'', PStr n),
                                (''argument'', v)])))
   \<and> values (Tree k [c]) = values (Tree ''anon'' [c])
   \<and> (node ''typed_argument'' cs = Some (Tree sd (Token ty n # c # scs)) \<longrightarrow>
      typed_argument (Tree d cs) = argument (Tree ad [Token aty n, Tree k [c]]))"
  using values_kind [of k "[c]" "''anon''"]
  by (simp add: child0_value_def split: sum.splits)

theorem typed_argument_agrees_witness:
  "node ''typed_argument'' [Tree ''typed_argument''
       [Token ''NAME'' ''n'', Tree ''types'' [Token ''INT_TYPE'' ''int'']]] =
     Some (Tree ''typed_argument''
       [Token ''NAME'' ''n'', Tree ''types'' [Token ''INT_TYPE'' ''int'']])
   \<and> typed_argument (Tree ''function_argument'' [Tree ''typed_argument''
       [Token ''NAME'' ''n'', Tree ''types'' [Token ''INT_TYPE'' ''int'']]]) =
     Inr (PDict [(''$OBJECT'', PStr ''argument''), (''name'', PStr ''n''),
        (''argument'', PDict [(''$OBJECT'', PStr ''type''), (''type'', PStr ''int'')])])
   \<and> argument (Tree ''arguments''
       [Token ''NAME'' ''n'', Tree ''values'' [Tree ''types'' [Token ''INT_TYPE'' ''int'']]]) =
     Inr (PDict [(''$OBJECT'', PStr ''argument''), (''name'', PStr ''n''),
        (''argument'', PDict [(''$OBJECT'', PStr ''type''), (''type'', PStr ''int'')])])"
  using typed_argument_agrees [where cs = "[Tree ''typed_argument''
       [Token ''NAME'' ''n'', Tree ''types'' [Token ''INT_TYPE'' ''int'']]]"
     and sd = "''typed_argument''" and ty = "''NAME''" and n = "''n''"
     and c = "Tree ''types'' [Token ''INT_TYPE'' ''int'']" and scs = "[]"
     and d = "''function_argument''" and k = "''values''" and ad = "''arguments''"
     and aty = "''NAME''"]
  by (simp add: node_def types_def child0_value_def)

subsection \<open>The silent fallthrough of the value dispatcher\<close>

text \<open>
  C9. \<^verbatim>\<open>Objects.values\<close> returns \<^verbatim>\<open>None\<close>, and raises nothing, on a tree whose first child
  is a nested tree of a kind other than string, boolean, list, number, objects and types,
  and on a tree whose first child is a token of a type other than \<^verbatim>\<open>NAME\<close>.
\<close>

theorem values_silent_fallthrough:
  "(sd \<notin> {''string'', ''boolean'', ''list'', ''number'', ''objects'', ''types''} \<longrightarrow>
      values (Tree d (Tree sd scs # cs)) = Inr PNone)
   \<and> (ty \<noteq> ''NAME'' \<longrightarrow> values (Tree d (Token ty v # cs)) = Inr PNone)"
  by simp

theorem values_silent_fallthrough_witness:
  "''expression'' \<notin> {''string'', ''boolean'', ''list'', ''number'', ''objects'', ''types''}
   \<and> values (Tree ''values'' [Tree ''expression'' [Token ''INT'' ''1'']]) = Inr PNone
   \<and> ''INT'' \<noteq> ''NAME''
   \<and> values (Tree ''values'' [Token ''INT'' ''1'']) = Inr PNone"
  using values_silent_fallthrough
    [where sd = "''expression''" and d = "''values''" and scs = "[Token ''INT'' ''1'']"
       and cs = "[]" and ty = "''INT''" and v = "''1''"]
  by simp

subsection \<open>Strings without placeholders\<close>

text \<open>
  C10. When the text of a string literal, its first and last character stripped, holds no
  placeholder (the regular expression finds no match), \<^verbatim>\<open>Objects.string\<close> returns a
  dictionary with exactly two keys, the discriminator and the stripped text unchanged:
  there is no key \<^verbatim>\<open>values\<close>, not even with an empty list.
\<close>

theorem string_without_placeholders:
  "findall (slice_1_m1 v) = [] \<Longrightarrow>
   string (Tree d (Token ty v # cs)) =
     Inr (PDict [(''$OBJECT'', PStr ''string''), (''string'', PStr (slice_1_m1 v))])"
  by (simp add: string_def child0_value_def)

theorem string_without_placeholders_witness:
  "findall (slice_1_m1 (quoted ''hello'')) = [] \<and>
   string (Tree ''string'' [Token ''DOUBLE_QUOTED'' (quoted ''hello'')]) =
     Inr (PDict [(''$OBJECT'', PStr ''string''), (''string'', PStr ''hello'')])"
  using string_without_placeholders
    [where v = "quoted ''hello''" and d = "''string''" and ty = "''DOUBLE_QUOTED''"
       and cs = "[]"]
  by simp

end
